theory Spec2Isabelle
  imports Complex_Main "HOL-Library.Multiset"
begin

section \<open>Data model of \<^verbatim>\<open>pyalgomate/brokers/finvasia/feed.py\<close>\<close>

text \<open>
  Timestamps are Python \<^verbatim>\<open>datetime\<close> values; only their equality and their total order
  are used (as dictionary keys and by \<^verbatim>\<open>sorted\<close>), so they are integers here. Prices and
  amounts are passed through unchanged, no arithmetic is done on them.
\<close>

type_synonym timestamp = int
type_synonym instrument = string

text \<open>
  Modelled from the spec: the Trade record produced by the websocket client
  (\<^verbatim>\<open>pyalgomate.brokers.finvasia.wsclient\<close>, not part of the sources). The spec gives it a
  timestamp, a price, an amount, a buy/sell flag and an open-ended map of extra fields,
  which holds the instrument identifier; the source reads it through \<^verbatim>\<open>getId\<close>,
  \<^verbatim>\<open>getDateTime\<close>, \<^verbatim>\<open>getPrice\<close>, \<^verbatim>\<open>getAmount\<close>, \<^verbatim>\<open>isBuy\<close> and \<^verbatim>\<open>getExtraColumns\<close>.
\<close>

record trade =
  trade_getId :: nat
  trade_getDateTime :: timestamp
  trade_getPrice :: real
  trade_getAmount :: real
  trade_isBuy :: bool
  trade_getExtraColumns :: "(string \<times> string) list"

text \<open>\<^verbatim>\<open>trade.getExtraColumns().get("instrument")\<close>: \<^verbatim>\<open>dict.get\<close> gives \<^verbatim>\<open>None\<close> for a missing key.\<close>

definition trade_instrument :: "trade \<Rightarrow> instrument option" where
  "trade_instrument t = map_of (trade_getExtraColumns t) ''instrument''"

datatype error = Exception string | AttributeError | IndexError

text \<open>The outcome of a call: the value returned, or the exception raised.\<close>

datatype 'a res = Return 'a | Raise error

text \<open>\<^verbatim>\<open>bar.Frequency\<close> of pyalgotrade.\<close>

datatype frequency = Frequency_TRADE | Frequency_SECOND | Frequency_MINUTE | Frequency_HOUR
  | Frequency_DAY | Frequency_WEEK | Frequency_MONTH

subsection \<open>class TradeBar\<close>

record tradeBar =
  tb_dateTime :: timestamp
  tb_trade :: trade

definition TradeBar :: "trade \<Rightarrow> tradeBar" where
  "TradeBar t = \<lparr> tb_dateTime = trade_getDateTime t, tb_trade = t \<rparr>"

definition getInstrument :: "tradeBar \<Rightarrow> instrument option" where
  "getInstrument b = trade_instrument (tb_trade b)"

definition setUseAdjustedValue :: "tradeBar \<Rightarrow> bool \<Rightarrow> unit res \<times> tradeBar" where
  "setUseAdjustedValue b useAdjusted =
     (if useAdjusted then (Raise (Exception ''Adjusted close is not available''), b)
      else (Return (), b))"

definition getTrade :: "tradeBar \<Rightarrow> trade" where
  "getTrade b = tb_trade b"

definition getTradeId :: "tradeBar \<Rightarrow> nat" where
  "getTradeId b = trade_getId (tb_trade b)"

definition getFrequency :: "tradeBar \<Rightarrow> frequency" where
  "getFrequency b = Frequency_TRADE"

definition getDateTime :: "tradeBar \<Rightarrow> timestamp" where
  "getDateTime b = tb_dateTime b"

definition getOpen :: "tradeBar \<Rightarrow> bool \<Rightarrow> real" where
  "getOpen b adjusted = trade_getPrice (tb_trade b)"

definition getHigh :: "tradeBar \<Rightarrow> bool \<Rightarrow> real" where
  "getHigh b adjusted = trade_getPrice (tb_trade b)"

definition getLow :: "tradeBar \<Rightarrow> bool \<Rightarrow> real" where
  "getLow b adjusted = trade_getPrice (tb_trade b)"

definition getClose :: "tradeBar \<Rightarrow> bool \<Rightarrow> real" where
  "getClose b adjusted = trade_getPrice (tb_trade b)"

definition getVolume :: "tradeBar \<Rightarrow> real" where
  "getVolume b = trade_getAmount (tb_trade b)"

definition getAdjClose :: "tradeBar \<Rightarrow> real option" where
  "getAdjClose b = None"

definition getTypicalPrice :: "tradeBar \<Rightarrow> real" where
  "getTypicalPrice b = trade_getPrice (tb_trade b)"

definition getPrice :: "tradeBar \<Rightarrow> real" where
  "getPrice b = trade_getPrice (tb_trade b)"

definition getUseAdjValue :: "tradeBar \<Rightarrow> bool" where
  "getUseAdjValue b = False"

definition isBuy :: "tradeBar \<Rightarrow> bool" where
  "isBuy b = trade_isBuy (tb_trade b)"

definition isSell :: "tradeBar \<Rightarrow> bool" where
  "isSell b = (\<not> trade_isBuy (tb_trade b))"

subsection \<open>The transport thread and the event queue\<close>

text \<open>
  Modelled from the spec: the event tags of \<^verbatim>\<open>wsclient.WebSocketClient.Event\<close> (not part of
  the sources). The spec names three tags; the queue item is a Python pair whose first
  component can be any value, so every other tag is \<open>OtherEvent n\<close>.
\<close>

datatype eventType = DISCONNECTED | TRADE | ORDER_BOOK_UPDATE | OtherEvent int

text \<open>
  The payload of a queue item: a Trade record for \<open>TRADE\<close>, an opaque order book update
  for \<open>ORDER_BOOK_UPDATE\<close>, nothing for \<open>DISCONNECTED\<close>.
\<close>

datatype eventData = TradeData trade | OrderBookUpdateData string | NoData

text \<open>
  Modelled from the spec: the transport thread \<^verbatim>\<open>wsclient.WebSocketClientThread\<close> (not part
  of the sources), as far as the feed observes it: the queue it owns (\<^verbatim>\<open>getQueue()\<close>), what
  \<^verbatim>\<open>is_alive()\<close> answers, whether \<^verbatim>\<open>stop()\<close> was requested, and the message of the exception
  that \<^verbatim>\<open>stop()\<close> raises, if it raises.
\<close>

record thread =
  thr_queue :: "(eventType \<times> eventData) list"
  thr_alive :: bool
  thr_stopRequested :: bool
  thr_stopRaises :: "string option"

datatype logrecord = Info string | Error string
  | ErrorInvalidEvent eventType eventData

subsection \<open>class LiveTradeFeed\<close>

text \<open>
  \<open>tradeBars\<close> is the dictionary \<^verbatim>\<open>__tradeBars\<close>: timestamp to list of one-entry
  dictionaries \<^verbatim>\<open>{instrument: trade}\<close>. A Python dictionary keeps its keys in insertion
  order, which \<^verbatim>\<open>getNextBars\<close> relies on after sorting, so it is an association list.
  \<open>orderBookUpdateEvent\<close> records what was emitted to the observers, \<open>logger\<close> what was
  logged.
\<close>

type_synonym barDict = "(instrument option \<times> trade) list"

record feed =
  tradeBars :: "(timestamp \<times> barDict list) list"
  channels :: "instrument list"
  timeout :: nat
  thread :: "thread option"
  enableReconnection :: bool
  stopped :: bool
  orderBookUpdateEvent :: "eventData list"
  logger :: "logrecord list"

definition LiveTradeFeed :: "instrument list \<Rightarrow> nat \<Rightarrow> feed" where
  "LiveTradeFeed instruments tmo =
     \<lparr> tradeBars = [], channels = instruments, timeout = tmo, thread = None,
       enableReconnection = True, stopped = False, orderBookUpdateEvent = [],
       logger = [] \<rparr>"

definition enableReconection :: "bool \<Rightarrow> feed \<Rightarrow> feed" where
  "enableReconection b s = s\<lparr>enableReconnection := b\<rparr>"

definition barsHaveAdjClose :: "feed \<Rightarrow> bool" where
  "barsHaveAdjClose s = False"

definition peekDateTime :: "feed \<Rightarrow> timestamp option" where
  "peekDateTime s = None"

definition eof :: "feed \<Rightarrow> bool" where
  "eof s = stopped s"

subsection \<open>The trade buffer\<close>

text \<open>
  \<^verbatim>\<open>__onTrade\<close>: create the key with an empty list when it is missing, then append the
  one-entry dictionary \<^verbatim>\<open>{instrument: trade}\<close> to the list stored under the timestamp.
\<close>

definition onTrade :: "trade \<Rightarrow> feed \<Rightarrow> feed" where
  "onTrade t s =
     (let dt = trade_getDateTime t;
          d = (if dt \<notin> fst ` set (tradeBars s) then tradeBars s @ [(dt, [])]
               else tradeBars s)
      in s\<lparr>tradeBars :=
             map (\<lambda>(k, l). if k = trade_getDateTime t
                           then (k, l @ [[(trade_instrument t, t)]]) else (k, l)) d\<rparr>)"

text \<open>
  \<^verbatim>\<open>bar.Bars\<close> of pyalgotrade wraps the dictionary it is given; its constructor rejects an
  empty dictionary and bars of different timestamps, neither of which a one-entry
  dictionary is.
\<close>

datatype bars = Bars barDict

text \<open>
  \<^verbatim>\<open>getNextBars\<close>. \<^verbatim>\<open>len(self.__tradeBars)\<close> is zero exactly when the sorted item list is
  empty, so the guard is the first case. Otherwise the dictionary is rebuilt from its
  items sorted by key, \<open>dateTime\<close> is its first key, \<^verbatim>\<open>pop(0)\<close> takes the first element of
  the list under it (\<^verbatim>\<open>IndexError\<close> on an empty list, raised after the dictionary was
  replaced by the sorted one), and the key is removed when its list has become empty.
\<close>

definition getNextBars :: "feed \<Rightarrow> bars option res \<times> feed" where
  "getNextBars s =
     (case sort_key fst (tradeBars s) of
        [] \<Rightarrow> (Return None, s)
      | (dateTime, l) # rest \<Rightarrow>
          (case l of
             [] \<Rightarrow> (Raise IndexError, s\<lparr>tradeBars := (dateTime, l) # rest\<rparr>)
           | tradeBar # l' \<Rightarrow>
               (Return (Some (Bars tradeBar)),
                s\<lparr>tradeBars :=
                    (if length l' = 0
                     then filter (\<lambda>(k, v). k \<noteq> dateTime) ((dateTime, l') # rest)
                     else (dateTime, l') # rest)\<rparr>)))"

text \<open>Feeding a sequence of trades, and calling \<^verbatim>\<open>getNextBars\<close> \<open>n\<close> times in a row.\<close>

definition onTrades :: "trade list \<Rightarrow> feed \<Rightarrow> feed" where
  "onTrades ts s = foldl (\<lambda>s' t. onTrade t s') s ts"

fun getNextBars_times :: "nat \<Rightarrow> feed \<Rightarrow> bars option res list \<times> feed" where
  "getNextBars_times 0 s = ([], s)"
| "getNextBars_times (Suc n) s =
     (let (r, s') = getNextBars s; (rs, s'') = getNextBars_times n s' in (r # rs, s''))"

text \<open>
  The invariant of the buffer between calls: the keys of the dictionary are distinct and
  no list is empty. \<open>pending\<close> counts the buffered entries.
\<close>

definition tradeBars_inv :: "feed \<Rightarrow> bool" where
  "tradeBars_inv s =
     (distinct (map fst (tradeBars s)) \<and> list_all (\<lambda>(k, l). l \<noteq> []) (tradeBars s))"

definition pending :: "feed \<Rightarrow> nat" where
  "pending s = sum_list (map (\<lambda>(k, l). length l) (tradeBars s))"

subsection \<open>The connection supervisor\<close>

text \<open>
  \<^verbatim>\<open>stop\<close>: the whole body is inside \<^verbatim>\<open>try ... except Exception\<close>. The only call that can
  raise is the transport thread's \<^verbatim>\<open>stop()\<close>.
\<close>

definition stop :: "feed \<Rightarrow> unit res \<times> feed" where
  "stop s =
     (let s1 = s\<lparr>stopped := True\<rparr> in
      case thread s1 of
        None \<Rightarrow> (Return (), s1)
      | Some th \<Rightarrow>
          if thr_alive th then
            (let s2 = s1\<lparr>logger := logger s1 @ [Info ''Stopping websocket client.'']\<rparr> in
             case thr_stopRaises th of
               None \<Rightarrow> (Return (), s2\<lparr>thread := Some (th\<lparr>thr_stopRequested := True\<rparr>)\<rparr>)
             | Some e \<Rightarrow>
                 (Return (),
                  s2\<lparr>logger := logger s2 @ [Error (''Error shutting down client: '' @ e)]\<rparr>))
          else (Return (), s1))"

text \<open>
  What the environment does during one run of \<^verbatim>\<open>__initializeClient\<close>: the outcome of
  \<^verbatim>\<open>buildWebSocketClientThread()\<close> followed by \<^verbatim>\<open>start()\<close>, and for each call of
  \<^verbatim>\<open>waitInitialized(timeout)\<close> its answer and whether another thread called \<^verbatim>\<open>stop()\<close> on
  the feed during the wait (the only way the stop flag changes inside the loop). When the
  list of polls is used up and the loop has not ended, the call does not return.
\<close>

datatype build = BuildRaises string | StartRaises thread string | Started thread

record poll =
  poll_initialized :: bool
  poll_stopCalled :: bool

record attempt =
  att_build :: build
  att_polls :: "poll list"

text \<open>
  \<^verbatim>\<open>while not initialized and not self.__stopped: initialized = self.__thread.waitInitialized(...)\<close>.
  \<^verbatim>\<open>self.__thread\<close> is \<^verbatim>\<open>None\<close> when no thread was ever built, and the attribute access raises.
\<close>

fun waitInitialized_loop :: "poll list \<Rightarrow> feed \<Rightarrow> (bool res \<times> feed) option" where
  "waitInitialized_loop [] s =
     (if stopped s then Some (Return False, s)
      else case thread s of
             None \<Rightarrow> Some (Raise AttributeError, s)
           | Some th \<Rightarrow> None)"
| "waitInitialized_loop (p # ps) s =
     (if stopped s then Some (Return False, s)
      else case thread s of
             None \<Rightarrow> Some (Raise AttributeError, s)
           | Some th \<Rightarrow>
               (let s' = (if poll_stopCalled p then snd (stop s) else s) in
                if poll_initialized p then Some (Return True, s')
                else waitInitialized_loop ps s'))"

definition initializeClient :: "attempt \<Rightarrow> feed \<Rightarrow> (bool res \<times> feed) option" where
  "initializeClient a s =
     (let s1 = s\<lparr>logger := logger s @ [Info ''Initializing websocket client'']\<rparr>;
          s2 = (case att_build a of
                  BuildRaises e \<Rightarrow>
                    s1\<lparr>logger := logger s1 @ [Error (''Error connecting : '' @ e)]\<rparr>
                | StartRaises th e \<Rightarrow>
                    s1\<lparr>thread := Some th,
                       logger := logger s1 @ [Error (''Error connecting : '' @ e)]\<rparr>
                | Started th \<Rightarrow> s1\<lparr>thread := Some th\<rparr>);
          s3 = s2\<lparr>logger := logger s2 @
                 [Info ''Waiting for websocket initialization to complete'']\<rparr>
      in case waitInitialized_loop (att_polls a) s3 of
           None \<Rightarrow> None
         | Some (Raise e, s4) \<Rightarrow> Some (Raise e, s4)
         | Some (Return initialized, s4) \<Rightarrow>
             Some (Return initialized,
                   s4\<lparr>logger := logger s4 @
                        [if initialized then Info ''Initialization completed''
                         else Error ''Initialization failed'']\<rparr>))"

text \<open>
  \<^verbatim>\<open>__onDisconnected\<close>. Each turn of \<^verbatim>\<open>while not self.__stopped and not self.__initializeClient()\<close>
  is one attempt of the environment; when the attempts are used up and the loop has not
  ended, the call does not return.
\<close>

fun reconnect_loop :: "attempt list \<Rightarrow> feed \<Rightarrow> (unit res \<times> feed) option" where
  "reconnect_loop [] s = (if stopped s then Some (Return (), s) else None)"
| "reconnect_loop (a # as) s =
     (if stopped s then Some (Return (), s)
      else case initializeClient a s of
             None \<Rightarrow> None
           | Some (Raise e, s') \<Rightarrow> Some (Raise e, s')
           | Some (Return initialized, s') \<Rightarrow>
               if initialized then Some (Return (), s') else reconnect_loop as s')"

definition onDisconnected :: "attempt list \<Rightarrow> feed \<Rightarrow> (unit res \<times> feed) option" where
  "onDisconnected as s =
     (if enableReconnection s then
        reconnect_loop as (s\<lparr>logger := logger s @ [Info ''Reconnecting'']\<rparr>)
      else if \<not> stopped s then
        Some (Return (), s\<lparr>logger := logger s @ [Info ''Stopping''], stopped := True\<rparr>)
      else Some (Return (), s))"

subsection \<open>The dispatch loop\<close>

text \<open>
  \<^verbatim>\<open>__dispatchImpl\<close>. \<^verbatim>\<open>self.__thread.getQueue()\<close> raises when no thread was built; an empty
  queue makes \<^verbatim>\<open>get\<close> raise \<^verbatim>\<open>queue.Empty\<close> after the timeout, which is caught. A \<open>TRADE\<close>
  item whose payload is not a trade makes \<^verbatim>\<open>trade.getDateTime()\<close> raise. \<open>excluded\<close> is the
  test \<^verbatim>\<open>eventFilter is not None and eventType not in eventFilter\<close>.
\<close>

definition excluded :: "eventType list option \<Rightarrow> eventType \<Rightarrow> bool" where
  "excluded eventFilter eventType =
     (case eventFilter of None \<Rightarrow> False | Some f \<Rightarrow> eventType \<notin> set f)"

definition dispatchImpl ::
  "attempt list \<Rightarrow> eventType list option \<Rightarrow> feed \<Rightarrow> (bool res \<times> feed) option" where
  "dispatchImpl as eventFilter s =
     (case thread s of
        None \<Rightarrow> Some (Raise AttributeError, s)
      | Some th \<Rightarrow>
          (case thr_queue th of
             [] \<Rightarrow> Some (Return False, s)
           | (eventType, eventData) # q \<Rightarrow>
               (let s1 = s\<lparr>thread := Some (th\<lparr>thr_queue := q\<rparr>)\<rparr> in
                if excluded eventFilter eventType then Some (Return False, s1)
                else if eventType = TRADE then
                  (case eventData of
                     TradeData t \<Rightarrow> Some (Return True, onTrade t s1)
                   | _ \<Rightarrow> Some (Raise AttributeError, s1))
                else if eventType = ORDER_BOOK_UPDATE then
                  Some (Return True,
                        s1\<lparr>orderBookUpdateEvent := orderBookUpdateEvent s1 @ [eventData]\<rparr>)
                else if eventType = DISCONNECTED then
                  (case onDisconnected as s1 of
                     None \<Rightarrow> None
                   | Some (Raise e, s2) \<Rightarrow> Some (Raise e, s2)
                   | Some (Return u, s2) \<Rightarrow> Some (Return True, s2))
                else Some (Return False,
                           s1\<lparr>logger := logger s1 @
                                [ErrorInvalidEvent eventType eventData]\<rparr>))))"

subsection \<open>The feed facade\<close>

text \<open>
  \<^verbatim>\<open>start\<close>. The call of the base class's \<^verbatim>\<open>start\<close> (pyalgotrade) does nothing to the fields
  of this class.
\<close>

definition start :: "attempt \<Rightarrow> feed \<Rightarrow> (unit res \<times> feed) option" where
  "start a s =
     (if thread s \<noteq> None then Some (Raise (Exception ''Already running''), s)
      else case initializeClient a s of
             None \<Rightarrow> None
           | Some (Raise e, s') \<Rightarrow> Some (Raise e, s')
           | Some (Return initialized, s') \<Rightarrow>
               if \<not> initialized
               then Some (Raise (Exception ''Initialization failed''), s'\<lparr>stopped := True\<rparr>)
               else Some (Return (), s'))"

section \<open>Auxiliary definitions for the proofs\<close>

text \<open>
  The entries of a buffer in the order of the dictionary, each with its key; \<open>emission\<close> is
  that sequence for the dictionary sorted by key, which is the order in which
  \<^verbatim>\<open>getNextBars\<close> hands the entries out. \<open>put\<close> is what \<^verbatim>\<open>__onTrade\<close> does to the dictionary,
  \<open>entry\<close> the key and the value it stores for a trade.
\<close>

definition flat :: "('k \<times> 'a list) list \<Rightarrow> ('k \<times> 'a) list" where
  "flat d = concat (map (\<lambda>(k, l). map (Pair k) l) d)"

definition emission :: "(timestamp \<times> 'a list) list \<Rightarrow> (timestamp \<times> 'a) list" where
  "emission d = flat (sort_key fst d)"

definition entries_at :: "('k \<times> 'a list) list \<Rightarrow> 'k \<Rightarrow> 'a list" where
  "entries_at d k = (case map_of d k of None \<Rightarrow> [] | Some l \<Rightarrow> l)"

definition put :: "'k \<Rightarrow> 'a \<Rightarrow> ('k \<times> 'a list) list \<Rightarrow> ('k \<times> 'a list) list" where
  "put k v d = map (\<lambda>(k', l). if k' = k then (k', l @ [v]) else (k', l))
                 (if k \<notin> fst ` set d then d @ [(k, [])] else d)"

definition puts :: "('k \<times> 'a) list \<Rightarrow> ('k \<times> 'a list) list \<Rightarrow> ('k \<times> 'a list) list" where
  "puts kvs d = foldl (\<lambda>d' (k, v). put k v d') d kvs"

definition entry :: "trade \<Rightarrow> timestamp \<times> barDict" where
  "entry t = (trade_getDateTime t, [(trade_instrument t, t)])"

text \<open>
  Concrete inputs: the two trades of the spec's scenario (same timestamp, \<open>AAPL\<close>), a
  third trade with an earlier timestamp that arrives last, a transport thread, an
  initialization attempt that succeeds at the second poll, the feed before and after
  a successful \<^verbatim>\<open>start\<close>, a running feed with reconnection disabled whose queue holds a
  disconnection followed by a trade and the same feed after the disconnection was
  dispatched, an attempt whose thread fails to start and that ends when \<^verbatim>\<open>stop\<close> is called
  during the second poll with the feed it leaves, and a thread whose \<^verbatim>\<open>stop\<close> raises.
\<close>

definition example_trade_1 :: trade where
  "example_trade_1 =
     \<lparr> trade_getId = 1, trade_getDateTime = 100, trade_getPrice = 150, trade_getAmount = 5,
       trade_isBuy = True, trade_getExtraColumns = [(''instrument'', ''AAPL'')] \<rparr>"

definition example_trade_2 :: trade where
  "example_trade_2 =
     \<lparr> trade_getId = 2, trade_getDateTime = 100, trade_getPrice = 150.2, trade_getAmount = 3,
       trade_isBuy = False, trade_getExtraColumns = [(''instrument'', ''AAPL'')] \<rparr>"

definition example_trade_3 :: trade where
  "example_trade_3 =
     \<lparr> trade_getId = 3, trade_getDateTime = 50, trade_getPrice = 149.5, trade_getAmount = 1,
       trade_isBuy = True, trade_getExtraColumns = [(''instrument'', ''MSFT'')] \<rparr>"

definition example_thread :: "(eventType \<times> eventData) list \<Rightarrow> thread" where
  "example_thread q =
     \<lparr> thr_queue = q, thr_alive = True, thr_stopRequested = False, thr_stopRaises = None \<rparr>"

definition example_attempt :: "(eventType \<times> eventData) list \<Rightarrow> attempt" where
  "example_attempt q =
     \<lparr> att_build = Started (example_thread q),
       att_polls = [\<lparr> poll_initialized = False, poll_stopCalled = False \<rparr>,
                    \<lparr> poll_initialized = True, poll_stopCalled = False \<rparr>] \<rparr>"

definition example_feed :: feed where
  "example_feed = LiveTradeFeed [''AAPL''] 10"

definition example_running :: "(eventType \<times> eventData) list \<Rightarrow> feed" where
  "example_running q =
     example_feed
       \<lparr> thread := Some (example_thread q),
         logger := [Info ''Initializing websocket client'',
                    Info ''Waiting for websocket initialization to complete'',
                    Info ''Initialization completed''] \<rparr>"

definition example_disconnecting :: feed where
  "example_disconnecting =
     (example_running [(DISCONNECTED, NoData), (TRADE, TradeData example_trade_1)])
       \<lparr> enableReconnection := False \<rparr>"

definition example_stopped :: feed where
  "example_stopped =
     (example_running [(TRADE, TradeData example_trade_1)])
       \<lparr> enableReconnection := False,
         logger := logger (example_running []) @ [Info ''Stopping''],
         stopped := True \<rparr>"

definition example_failing_attempt :: attempt where
  "example_failing_attempt =
     \<lparr> att_build = StartRaises (example_thread []) ''refused'',
       att_polls = [\<lparr> poll_initialized = False, poll_stopCalled = False \<rparr>,
                    \<lparr> poll_initialized = False, poll_stopCalled = True \<rparr>] \<rparr>"

definition example_raising_thread :: thread where
  "example_raising_thread =
     \<lparr> thr_queue = [], thr_alive = True, thr_stopRequested = False,
       thr_stopRaises = Some ''socket closed'' \<rparr>"

definition example_failed :: feed where
  "example_failed =
     example_feed
       \<lparr> thread := Some ((example_thread [])\<lparr>thr_stopRequested := True\<rparr>),
         stopped := True,
         logger := [Info ''Initializing websocket client'',
                    Error ''Error connecting : refused'',
                    Info ''Waiting for websocket initialization to complete'',
                    Info ''Stopping websocket client.'',
                    Error ''Initialization failed''] \<rparr>"

section \<open>The trade buffer: insertion and emission\<close>

lemma tradeBars_onTrade: "tradeBars (onTrade t s) = put (fst (entry t)) (snd (entry t)) (tradeBars s)"
  by (simp add: onTrade_def put_def entry_def Let_def)

lemma onTrade_frame: "onTrade t s = s\<lparr>tradeBars := tradeBars (onTrade t s)\<rparr>"
  by (simp add: onTrade_def Let_def)

lemma flat_simps [simp]: "flat [] = []" "flat ((k, l) # d) = map (Pair k) l @ flat d"
  "flat (d @ d') = flat d @ flat d'"
  by (simp_all add: flat_def)

lemma map_fst_put: "map fst (put k v d) = (if k \<in> fst ` set d then map fst d else map fst d @ [k])"
  by (auto simp: put_def comp_def case_prod_beta intro!: map_cong)

lemma distinct_put: "distinct (map fst d) \<Longrightarrow> distinct (map fst (put k v d))"
  by (auto simp: map_fst_put)

lemma upd_absent:
  "k \<notin> fst ` set d \<Longrightarrow> map (\<lambda>(k', l). if k' = k then (k', l @ [v]) else (k', l)) d = d"
  by (induction d) auto

lemma nonempty_put: "list_all (\<lambda>(k, l). l \<noteq> []) d \<Longrightarrow> list_all (\<lambda>(k, l). l \<noteq> []) (put k v d)"
  by (auto simp: put_def list_all_iff split: if_splits)

lemma map_of_upd:
  "map_of (map (\<lambda>(k', l). if k' = k then (k', l @ [v]) else (k', l)) d) j =
     (if j = k then map_option (\<lambda>l. l @ [v]) (map_of d k) else map_of d j)"
  by (induction d) auto

lemma entries_at_absent: "k \<notin> fst ` set d \<Longrightarrow> entries_at d k = []"
  by (force simp: entries_at_def split: option.splits dest!: map_of_SomeD)

lemma entries_at_upd:
  "entries_at (map (\<lambda>(k', l). if k' = k then (k', l @ [v]) else (k', l)) d) j =
     (if j = k \<and> k \<in> fst ` set d then entries_at d k @ [v] else entries_at d j)"
proof (cases "map_of d k")
  case None
  then have "k \<notin> fst ` set d" by (simp add: map_of_eq_None_iff)
  with None show ?thesis by (simp add: entries_at_def map_of_upd)
next
  case (Some l)
  then have "k \<in> fst ` set d" by (force dest: map_of_SomeD)
  with Some show ?thesis by (simp add: entries_at_def map_of_upd)
qed

lemma entries_at_snoc: "entries_at (d @ [(k, [])]) j = entries_at d j"
  by (auto simp: entries_at_def map_add_def split: option.splits)

lemma entries_at_put:
  "entries_at (put k v d) j = (if j = k then entries_at d k @ [v] else entries_at d j)"
  by (auto simp: put_def entries_at_upd entries_at_snoc entries_at_absent)

lemma mset_flat_upd:
  "distinct (map fst d) \<Longrightarrow> k \<in> fst ` set d \<Longrightarrow>
   mset (flat (map (\<lambda>(k', l). if k' = k then (k', l @ [v]) else (k', l)) d)) =
   add_mset (k, v) (mset (flat d))"
proof (induction d)
  case Nil
  then show ?case by simp
next
  case (Cons a d)
  obtain k' l where a: "a = (k', l)" by (cases a)
  show ?case
  proof (cases "k' = k")
    case True
    with Cons.prems a have "k \<notin> fst ` set d" by auto
    then show ?thesis using a True by (simp add: upd_absent)
  next
    case False
    with Cons a show ?thesis by auto
  qed
qed

lemma mset_flat_put:
  "distinct (map fst d) \<Longrightarrow> mset (flat (put k v d)) = add_mset (k, v) (mset (flat d))"
proof (cases "k \<in> fst ` set d")
  case True
  assume "distinct (map fst d)"
  with True show ?thesis by (simp add: put_def mset_flat_upd)
next
  case False
  assume "distinct (map fst d)"
  with False have "distinct (map fst (d @ [(k, [])]))" "k \<in> fst ` set (d @ [(k, [])])" by auto
  from mset_flat_upd [OF this] False show ?thesis by (simp add: put_def)
qed

lemma mset_flat_cong: "mset d = mset d' \<Longrightarrow> mset (flat d) = mset (flat d')"
proof -
  assume "mset d = mset d'"
  moreover have "\<And>d :: ('a \<times> 'b list) list. mset (flat d) = (\<Sum>x\<in>#mset d. mset (map (Pair (fst x)) (snd x)))"
    subgoal for d by (induction d) auto
    done
  ultimately show ?thesis by simp
qed

lemma filter_flat:
  "distinct (map fst d) \<Longrightarrow> filter (\<lambda>x. fst x = k) (flat d) = map (Pair k) (entries_at d k)"
proof (induction d)
  case Nil
  then show ?case by (simp add: entries_at_def)
next
  case (Cons a d)
  obtain k' l where a: "a = (k', l)" by (cases a)
  show ?case
  proof (cases "k' = k")
    case True
    with Cons.prems a have "k \<notin> fst ` set d" by auto
    then have "entries_at d k = []" by (rule entries_at_absent)
    with Cons a True show ?thesis by (simp add: entries_at_def filter_map comp_def)
  next
    case False
    with Cons a show ?thesis by (simp add: entries_at_def filter_map comp_def)
  qed
qed

lemma sorted_map_const: "sorted (map (\<lambda>x. c) xs)"
  by (induction xs) auto

lemma fst_set_flat: "x \<in> set (flat d) \<Longrightarrow> fst x \<in> fst ` set d"
  by (induction d) auto

lemma sorted_flat: "sorted (map fst d) \<Longrightarrow> sorted (map fst (flat d))"
proof (induction d)
  case Nil
  then show ?case by simp
next
  case (Cons a d)
  obtain k l where a: "a = (k, l)" by (cases a)
  from Cons.prems a have le: "\<forall>y\<in>set d. k \<le> fst y" by simp
  have "\<forall>x\<in>set (flat d). k \<le> fst x"
  proof
    fix x assume "x \<in> set (flat d)"
    then have "fst x \<in> fst ` set d" by (rule fst_set_flat)
    with le show "k \<le> fst x" by auto
  qed
  with Cons a show ?case by (auto simp: sorted_append comp_def sorted_map_const)
qed

lemma entries_at_sort: "distinct (map fst d) \<Longrightarrow> entries_at (sort_key fst d) k = entries_at d k"
proof -
  assume d: "distinct (map fst d)"
  then have "distinct (map fst (sort_key fst d))" by (simp add: distinct_map inj_on_def)
  with d have "map_of (sort_key fst d) = map_of d"
    by (simp add: map_of_inject_set)
  then show ?thesis by (simp add: entries_at_def)
qed


lemma puts_snoc: "puts (kvs @ [(k, v)]) d = put k v (puts kvs d)"
  by (simp add: puts_def)

lemma tradeBars_onTrades: "tradeBars (onTrades ts s) = puts (map entry ts) (tradeBars s)"
proof (induction ts arbitrary: s)
  case Nil
  then show ?case by (simp add: onTrades_def puts_def)
next
  case (Cons t ts)
  have "tradeBars (onTrades (t # ts) s) = tradeBars (onTrades ts (onTrade t s))"
    by (simp add: onTrades_def)
  also have "\<dots> = puts (map entry ts) (tradeBars (onTrade t s))" by (rule Cons.IH)
  finally show ?case by (simp add: tradeBars_onTrade puts_def case_prod_beta)
qed

lemma onTrades_frame: "onTrades ts s = s\<lparr>tradeBars := tradeBars (onTrades ts s)\<rparr>"
proof (induction ts arbitrary: s)
  case Nil
  then show ?case by (simp add: onTrades_def)
next
  case (Cons t ts)
  have "onTrades (t # ts) s = onTrades ts (onTrade t s)" by (simp add: onTrades_def)
  then show ?case using Cons.IH [of "onTrade t s"] onTrade_frame [of t s]
    by (metis feed.update_convs(1) feed.surjective)
qed

lemma puts_rep:
  "distinct (map fst (puts kvs [])) \<and>
   list_all (\<lambda>(k, l). l \<noteq> []) (puts kvs []) \<and>
   mset (flat (puts kvs [])) = mset kvs \<and>
   (\<forall>k. entries_at (puts kvs []) k = map snd (filter (\<lambda>x. fst x = k) kvs))"
proof (induction kvs rule: rev_induct)
  case Nil
  then show ?case by (simp add: puts_def entries_at_def)
next
  case (snoc x kvs)
  obtain k v where x: "x = (k, v)" by (cases x)
  from snoc show ?case unfolding x puts_snoc
    by (simp add: distinct_put nonempty_put mset_flat_put entries_at_put)
qed

lemma emission_puts: "emission (puts kvs []) = sort_key fst kvs"
proof -
  let ?d = "puts kvs []"
  have dist: "distinct (map fst ?d)" and ms: "mset (flat ?d) = mset kvs"
    and at: "\<And>k. entries_at ?d k = map snd (filter (\<lambda>x. fst x = k) kvs)"
    using puts_rep [of kvs] by auto
  have dist': "distinct (map fst (sort_key fst ?d))"
    using dist by (simp add: distinct_map inj_on_def)
  have "sort_key fst kvs = emission ?d"
  proof (rule properties_for_sort_key)
    show "mset (emission ?d) = mset kvs"
      using ms mset_flat_cong [of "sort_key fst ?d" ?d] by (simp add: emission_def)
  next
    fix y assume "y \<in> set (emission ?d)"
    have "filter (\<lambda>x. fst x = fst y) (emission ?d) = map (Pair (fst y)) (entries_at ?d (fst y))"
      using filter_flat [OF dist'] entries_at_sort [OF dist] by (simp add: emission_def)
    also have "\<dots> = filter (\<lambda>x. fst x = fst y) kvs"
      by (simp add: at) (induction kvs, auto)
    finally show "filter (\<lambda>x. fst y = fst x) (emission ?d) = filter (\<lambda>x. fst y = fst x) kvs"
      by (simp add: eq_commute)
  next
    show "sorted (map fst (emission ?d))"
      by (simp add: emission_def sorted_flat)
  qed
  then show ?thesis by simp
qed

lemma insort_key_map: "insort_key f (g x) (map g ys) = map g (insort_key (\<lambda>y. f (g y)) x ys)"
  by (induction ys) auto

lemma sort_key_map: "sort_key f (map g xs) = map g (sort_key (\<lambda>y. f (g y)) xs)"
  by (induction xs) (auto simp: insort_key_map)

lemma emission_onTrades:
  "tradeBars s = [] \<Longrightarrow>
   emission (tradeBars (onTrades ts s)) = map entry (sort_key trade_getDateTime ts)"
  by (simp add: tradeBars_onTrades emission_puts sort_key_map entry_def)

lemma inv_onTrade: "tradeBars_inv s \<Longrightarrow> tradeBars_inv (onTrade t s)"
  by (simp add: tradeBars_inv_def tradeBars_onTrade distinct_put nonempty_put)

lemma inv_onTrades: "tradeBars_inv s \<Longrightarrow> tradeBars_inv (onTrades ts s)"
  by (induction ts arbitrary: s) (simp_all add: onTrades_def inv_onTrade)


lemma filter_keys_absent: "k \<notin> fst ` set d \<Longrightarrow> filter (\<lambda>(k', v). k' \<noteq> k) d = d"
  by (induction d) auto

lemma getNextBars_empty: "tradeBars s = [] \<Longrightarrow> getNextBars s = (Return None, s)"
  by (simp add: getNextBars_def)

lemma getNextBars_step:
  assumes inv: "tradeBars_inv s" and ne: "tradeBars s \<noteq> []"
  shows "\<exists>k e es d'. emission (tradeBars s) = (k, e) # es \<and>
           getNextBars s = (Return (Some (Bars e)), s\<lparr>tradeBars := d'\<rparr>) \<and>
           emission d' = es \<and> tradeBars_inv (s\<lparr>tradeBars := d'\<rparr>)"
proof -
  let ?ds = "sort_key fst (tradeBars s)"
  from ne have "length ?ds \<noteq> 0" by simp
  then obtain k l rest where ds: "?ds = (k, l) # rest" by (cases ?ds) auto
  from inv have dist: "distinct (map fst ?ds)" and nonempty: "\<forall>(k, l)\<in>set ?ds. l \<noteq> []"
    by (simp_all add: tradeBars_inv_def distinct_map inj_on_def list_all_iff)
  from nonempty ds obtain e l' where l: "l = e # l'" by (cases l) auto
  from dist ds have absent: "k \<notin> fst ` set rest" by simp
  have srt: "sorted (map fst ?ds)" by simp
  define d' where "d' = (if length l' = 0 then filter (\<lambda>(k', v). k' \<noteq> k) ((k, l') # rest)
                         else (k, l') # rest)"
  have d'_eq: "d' = (if l' = [] then rest else (k, l') # rest)"
    using absent by (simp add: d'_def filter_keys_absent)
  have sorted_d': "sorted (map fst d')" using srt ds by (auto simp: d'_eq)
  have "emission (tradeBars s) = (k, e) # map (Pair k) l' @ flat rest"
    by (simp add: emission_def ds l)
  moreover have "getNextBars s = (Return (Some (Bars e)), s\<lparr>tradeBars := d'\<rparr>)"
    by (simp add: getNextBars_def ds l d'_def)
  moreover have "emission d' = map (Pair k) l' @ flat rest"
    using sorted_d' by (auto simp: emission_def sort_key_id_if_sorted d'_eq)
  moreover have "tradeBars_inv (s\<lparr>tradeBars := d'\<rparr>)"
    using dist nonempty ds by (auto simp: tradeBars_inv_def d'_eq list_all_iff)
  ultimately show ?thesis by blast
qed

lemma emission_Nil:
  assumes inv: "tradeBars_inv s" and e: "emission (tradeBars s) = []"
  shows "tradeBars s = []"
proof (rule ccontr)
  assume ne: "tradeBars s \<noteq> []"
  from getNextBars_step [OF inv ne] e show False by auto
qed

lemma getNextBars_times_emission:
  "tradeBars_inv s \<Longrightarrow> length (emission (tradeBars s)) = n \<Longrightarrow>
   getNextBars_times n s =
     (map (\<lambda>(k, e). Return (Some (Bars e))) (emission (tradeBars s)), s\<lparr>tradeBars := []\<rparr>)"
proof (induction n arbitrary: s)
  case 0
  then have "emission (tradeBars s) = []" by simp
  with "0.prems"(1) have "tradeBars s = []" by (rule emission_Nil)
  then show ?case by (simp add: emission_def)
next
  case (Suc n)
  then have ne: "tradeBars s \<noteq> []" by (auto simp: emission_def)
  from getNextBars_step [OF Suc.prems(1) ne] obtain k e es d' where
    em: "emission (tradeBars s) = (k, e) # es" and
    g: "getNextBars s = (Return (Some (Bars e)), s\<lparr>tradeBars := d'\<rparr>)" and
    em': "emission d' = es" and inv': "tradeBars_inv (s\<lparr>tradeBars := d'\<rparr>)"
    by blast
  from em Suc.prems(2) em' have "length (emission (tradeBars (s\<lparr>tradeBars := d'\<rparr>))) = n"
    by simp
  from Suc.IH [OF inv' this] show ?case by (simp add: g em em')
qed

lemma length_flat: "length (flat d) = sum_list (map (\<lambda>(k, l). length l) d)"
  by (induction d) auto

lemma pending_emission: "pending s = length (emission (tradeBars s))"
proof -
  have "mset (flat (sort_key fst (tradeBars s))) = mset (flat (tradeBars s))"
    by (rule mset_flat_cong) simp
  then have "length (flat (sort_key fst (tradeBars s))) = length (flat (tradeBars s))"
    by (metis size_mset)
  then show ?thesis by (simp add: pending_def emission_def length_flat)
qed

section \<open>Order of emission\<close>

text \<open>
  C1: for every sequence of trades inserted by \<^verbatim>\<open>__onTrade\<close> into an empty buffer, as many
  successive calls of \<^verbatim>\<open>getNextBars\<close> as there are trades emit them in non-decreasing
  timestamp order, those of one timestamp in the order of their insertion (the emitted
  sequence is the stable sort of the inserted one by timestamp: it is sorted, it keeps
  the order inside every timestamp, it has the same elements), and leave the buffer
  empty; \<^verbatim>\<open>getNextBars\<close> on an empty buffer returns \<^verbatim>\<open>None\<close> and changes nothing.
\<close>

theorem getNextBars_emits_in_timestamp_order:
  assumes "tradeBars s = []"
  shows "getNextBars_times (length ts) (onTrades ts s) =
           (map (\<lambda>t. Return (Some (Bars [(trade_instrument t, t)])))
              (sort_key trade_getDateTime ts), s)
         \<and> sorted (map trade_getDateTime (sort_key trade_getDateTime ts))
         \<and> (\<forall>k. filter (\<lambda>t. trade_getDateTime t = k) (sort_key trade_getDateTime ts) =
                 filter (\<lambda>t. trade_getDateTime t = k) ts)
         \<and> mset (sort_key trade_getDateTime ts) = mset ts
         \<and> getNextBars s = (Return None, s)"
proof -
  from assms have inv0: "tradeBars_inv s" by (simp add: tradeBars_inv_def)
  then have inv: "tradeBars_inv (onTrades ts s)" by (rule inv_onTrades)
  have em: "emission (tradeBars (onTrades ts s)) = map entry (sort_key trade_getDateTime ts)"
    using assms by (rule emission_onTrades)
  then have len: "length (emission (tradeBars (onTrades ts s))) = length ts" by simp
  have fr: "(onTrades ts s)\<lparr>tradeBars := []\<rparr> = s"
    using onTrades_frame [of ts s] assms
    by (metis feed.update_convs(1) feed.surjective feed.select_convs(1))
  have "getNextBars_times (length ts) (onTrades ts s) =
           (map (\<lambda>t. Return (Some (Bars [(trade_instrument t, t)])))
              (sort_key trade_getDateTime ts), s)"
    using getNextBars_times_emission [OF inv len] by (simp add: em fr entry_def comp_def)
  moreover have "\<forall>k. filter (\<lambda>t. trade_getDateTime t = k) (sort_key trade_getDateTime ts) =
                 filter (\<lambda>t. trade_getDateTime t = k) ts"
    by (simp add: sort_key_stable)
  moreover have "getNextBars s = (Return None, s)" using assms by (rule getNextBars_empty)
  ultimately show ?thesis by simp
qed

theorem getNextBars_emits_in_timestamp_order_witness:
  "tradeBars example_feed = []
   \<and> getNextBars_times 3 (onTrades [example_trade_1, example_trade_2, example_trade_3] example_feed) =
       ([Return (Some (Bars [(Some ''MSFT'', example_trade_3)])),
         Return (Some (Bars [(Some ''AAPL'', example_trade_1)])),
         Return (Some (Bars [(Some ''AAPL'', example_trade_2)]))], example_feed)
   \<and> getNextBars example_feed = (Return None, example_feed)"
proof -
  have h: "tradeBars example_feed = []" by (simp add: example_feed_def LiveTradeFeed_def)
  have i: "trade_instrument example_trade_1 = Some ''AAPL''"
     "trade_instrument example_trade_2 = Some ''AAPL''"
     "trade_instrument example_trade_3 = Some ''MSFT''"
    by (simp_all add: trade_instrument_def example_trade_1_def example_trade_2_def example_trade_3_def)
  have d: "trade_getDateTime example_trade_1 = 100" "trade_getDateTime example_trade_2 = 100"
    "trade_getDateTime example_trade_3 = 50"
    by (simp_all add: example_trade_1_def example_trade_2_def example_trade_3_def)
  have l: "length [example_trade_1, example_trade_2, example_trade_3] = 3" by simp
  have srt: "sort_key trade_getDateTime [example_trade_1, example_trade_2, example_trade_3] =
               [example_trade_3, example_trade_1, example_trade_2]"
    by (simp add: d)
  note th = getNextBars_emits_in_timestamp_order
    [OF h, of "[example_trade_1, example_trade_2, example_trade_3]", unfolded l srt]
  from th h show ?thesis by (simp add: i del: getNextBars_times.simps)
qed

section \<open>The invariant of the trade buffer\<close>

text \<open>
  C3: the buffer never holds an empty list. The invariant (distinct keys, no empty list)
  holds of a new feed and is preserved by \<^verbatim>\<open>__onTrade\<close> and by \<^verbatim>\<open>getNextBars\<close>, which under it
  never raises; calling \<^verbatim>\<open>getNextBars\<close> once for every buffered entry emits them all and
  leaves the dictionary empty, with no key left.
\<close>

theorem tradeBars_never_holds_empty_list:
  assumes "tradeBars_inv s"
  shows "tradeBars_inv (LiveTradeFeed instruments tmo)
         \<and> tradeBars_inv (onTrade t s)
         \<and> (\<exists>r d'. getNextBars s = (Return r, s\<lparr>tradeBars := d'\<rparr>) \<and> tradeBars_inv (s\<lparr>tradeBars := d'\<rparr>))
         \<and> fst (getNextBars_times (pending s) s) =
             map (\<lambda>(k, e). Return (Some (Bars e))) (emission (tradeBars s))
         \<and> snd (getNextBars_times (pending s) s) = s\<lparr>tradeBars := []\<rparr>
         \<and> list_all (\<lambda>(k, l). l \<noteq> []) (tradeBars s)"
proof -
  have "tradeBars_inv (LiveTradeFeed instruments tmo)"
    by (simp add: tradeBars_inv_def LiveTradeFeed_def)
  moreover have "tradeBars_inv (onTrade t s)" using assms by (rule inv_onTrade)
  moreover have "\<exists>r d'. getNextBars s = (Return r, s\<lparr>tradeBars := d'\<rparr>) \<and> tradeBars_inv (s\<lparr>tradeBars := d'\<rparr>)"
  proof (cases "tradeBars s = []")
    case True
    then have "getNextBars s = (Return None, s\<lparr>tradeBars := []\<rparr>)" by (simp add: getNextBars_empty)
    moreover from True assms have "tradeBars_inv (s\<lparr>tradeBars := []\<rparr>)" by (simp add: tradeBars_inv_def)
    ultimately show ?thesis by blast
  next
    case False
    from getNextBars_step [OF assms False] show ?thesis by blast
  qed
  moreover have "getNextBars_times (pending s) s =
     (map (\<lambda>(k, e). Return (Some (Bars e))) (emission (tradeBars s)), s\<lparr>tradeBars := []\<rparr>)"
    using assms by (simp add: getNextBars_times_emission pending_emission)
  moreover have "list_all (\<lambda>(k, l). l \<noteq> []) (tradeBars s)" using assms by (simp add: tradeBars_inv_def)
  ultimately show ?thesis by simp
qed

theorem tradeBars_never_holds_empty_list_witness:
  "tradeBars_inv (onTrade example_trade_1 example_feed)
   \<and> tradeBars_inv (onTrade example_trade_2 (onTrade example_trade_1 example_feed))
   \<and> tradeBars (snd (getNextBars_times (pending (onTrade example_trade_1 example_feed))
         (onTrade example_trade_1 example_feed))) = []"
proof -
  have h: "tradeBars_inv (onTrade example_trade_1 example_feed)"
    by (simp add: tradeBars_inv_def onTrade_def example_feed_def LiveTradeFeed_def)
  from tradeBars_never_holds_empty_list [OF h, of "[]" 0 example_trade_2] h
  show ?thesis by (simp del: getNextBars_times.simps)
qed

section \<open>Trades and bars\<close>

text \<open>
  What the class \<^verbatim>\<open>TradeBar\<close> makes of a trade: open, high, low and close are the price of
  the trade, the volume is its amount, the timestamp and the instrument are the trade's,
  the frequency is \<open>TRADE\<close>.
\<close>

lemma TradeBar_projection:
  "getOpen (TradeBar t) a = trade_getPrice t \<and> getHigh (TradeBar t) a = trade_getPrice t
   \<and> getLow (TradeBar t) a = trade_getPrice t \<and> getClose (TradeBar t) a = trade_getPrice t
   \<and> getVolume (TradeBar t) = trade_getAmount t
   \<and> getDateTime (TradeBar t) = trade_getDateTime t
   \<and> getFrequency (TradeBar t) = Frequency_TRADE
   \<and> getInstrument (TradeBar t) = trade_instrument t"
  by (simp add: TradeBar_def getOpen_def getHigh_def getLow_def getClose_def getVolume_def
      getDateTime_def getFrequency_def getInstrument_def)

text \<open>
  C2: what \<^verbatim>\<open>__onTrade\<close> stores and \<^verbatim>\<open>getNextBars\<close> emits. The entry is stored under the
  timestamp of the trade and keyed by its instrument, but its value is the trade object as
  it came from the queue: \<^verbatim>\<open>__onTrade\<close> appends \<^verbatim>\<open>{instrument: trade}\<close> and no \<^verbatim>\<open>TradeBar\<close> is
  built anywhere in the feed, although the class exists and the docstring of
  \<^verbatim>\<open>LiveTradeFeed\<close> says that a bar is created for every trade. The theorem evaluates the
  code for any trade put into an empty buffer.
\<close>

theorem onTrade_buffers_the_trade_itself:
  "tradeBars (onTrade t (s\<lparr>tradeBars := []\<rparr>)) =
     [(trade_getDateTime t, [[(trade_instrument t, t)]])]
   \<and> getNextBars (onTrade t (s\<lparr>tradeBars := []\<rparr>)) =
       (Return (Some (Bars [(trade_instrument t, t)])), s\<lparr>tradeBars := []\<rparr>)"
  by (simp add: onTrade_def getNextBars_def)

section \<open>The connection supervisor\<close>

lemma waitInitialized_loop_stopped:
  "stopped s \<Longrightarrow> waitInitialized_loop ps s = Some (Return False, s)"
  by (cases ps) simp_all

lemma waitInitialized_loop_no_thread:
  "\<not> stopped s \<Longrightarrow> thread s = None \<Longrightarrow> waitInitialized_loop ps s = Some (Raise AttributeError, s)"
  by (cases ps) simp_all

lemma stop_Return: "fst (stop s) = Return ()"
  by (simp add: stop_def Let_def split: option.splits)

lemma stopped_stop: "stopped (snd (stop s))"
  by (simp add: stop_def Let_def split: option.splits)

lemma thread_stop_None: "thread (snd (stop s)) = None \<longleftrightarrow> thread s = None"
  by (simp add: stop_def Let_def split: option.splits)

lemma waitInitialized_loop_until_stop:
  assumes "\<not> stopped s" and "thread s \<noteq> None"
    and "\<forall>p\<in>set ps. \<not> poll_initialized p \<and> \<not> poll_stopCalled p"
    and "\<not> poll_initialized p'" and "poll_stopCalled p'"
  shows "waitInitialized_loop (ps @ p' # ps') s = Some (Return False, snd (stop s))"
  using assms(3)
proof (induction ps)
  case Nil
  from assms(2) obtain th where th: "thread s = Some th" by auto
  have "waitInitialized_loop (p' # ps') s = waitInitialized_loop ps' (snd (stop s))"
    using assms(1,4,5) th by simp
  also have "\<dots> = Some (Return False, snd (stop s))"
    by (rule waitInitialized_loop_stopped) (rule stopped_stop)
  finally show ?case by simp
next
  case (Cons p ps)
  from assms(2) obtain th where th: "thread s = Some th" by auto
  from Cons.prems have p: "\<not> poll_initialized p" "\<not> poll_stopCalled p" by simp_all
  from Cons.prems have "\<forall>p\<in>set ps. \<not> poll_initialized p \<and> \<not> poll_stopCalled p" by simp
  then have IH: "waitInitialized_loop (ps @ p' # ps') s = Some (Return False, snd (stop s))"
    by (rule Cons.IH)
  have "waitInitialized_loop (p # (ps @ p' # ps')) s = waitInitialized_loop (ps @ p' # ps') s"
    using assms(1) th p by simp
  also note IH
  finally show ?case by simp
qed

lemma initializeClient_start_raises:
  assumes "\<not> stopped s"
    and "\<forall>p\<in>set ps. \<not> poll_initialized p \<and> \<not> poll_stopCalled p"
    and "\<not> poll_initialized p'" and "poll_stopCalled p'"
  shows "\<exists>s'. initializeClient \<lparr> att_build = StartRaises th e, att_polls = ps @ p' # ps' \<rparr> s =
           Some (Return False, s') \<and> stopped s' \<and>
           Error (''Error connecting : '' @ e) \<in> set (logger s') \<and>
           last (logger s') = Error ''Initialization failed''"
proof -
  define s3 where "s3 = s\<lparr>thread := Some th,
               logger := logger s @ [Info ''Initializing websocket client'',
                 Error (''Error connecting : '' @ e),
                 Info ''Waiting for websocket initialization to complete'']\<rparr>"
  have "\<not> stopped s3" "thread s3 \<noteq> None" using assms(1) by (simp_all add: s3_def)
  then have w: "waitInitialized_loop (ps @ p' # ps') s3 = Some (Return False, snd (stop s3))"
    using assms(2,3,4) by (rule waitInitialized_loop_until_stop)
  have l: "Error (''Error connecting : '' @ e) \<in> set (logger (snd (stop s3)))"
    by (simp add: stop_def Let_def s3_def split: option.splits)
  have i: "initializeClient \<lparr> att_build = StartRaises th e, att_polls = ps @ p' # ps' \<rparr> s =
     Some (Return False, (snd (stop s3))\<lparr>logger := logger (snd (stop s3)) @ [Error ''Initialization failed'']\<rparr>)"
    unfolding initializeClient_def Let_def using w by (simp add: s3_def)
  show ?thesis
    using i l stopped_stop [of s3] by simp
qed

lemma waitInitialized_loop_no_stop:
  "\<forall>p\<in>set ps. \<not> poll_stopCalled p \<Longrightarrow> waitInitialized_loop ps s = Some (r, s') \<Longrightarrow>
   s' = s \<and> (r = Return True \<longrightarrow> \<not> stopped s)"
proof (induction ps)
  case Nil
  then show ?case by (auto split: if_splits option.splits)
next
  case (Cons p ps)
  show ?case
  proof (cases "stopped s")
    case True
    with Cons.prems show ?thesis by auto
  next
    case False
    show ?thesis
    proof (cases "thread s")
      case None
      with False Cons.prems show ?thesis by auto
    next
      case (Some th)
      show ?thesis
      proof (cases "poll_initialized p")
        case True
        with False Some Cons.prems show ?thesis by auto
      next
        case f: False
        with False Some Cons.prems have "waitInitialized_loop ps s = Some (r, s')" by simp
        moreover from Cons.prems have "\<forall>p\<in>set ps. \<not> poll_stopCalled p" by simp
        ultimately show ?thesis using Cons.IH by blast
      qed
    qed
  qed
qed

lemma initializeClient_Return_True:
  assumes "initializeClient a s = Some (Return True, s')"
    and "\<forall>p\<in>set (att_polls a). \<not> poll_stopCalled p"
  shows "\<not> stopped s'"
proof -
  define s3 where "s3 = (let s1 = s\<lparr>logger := logger s @ [Info ''Initializing websocket client'']\<rparr>;
          s2 = (case att_build a of
                  BuildRaises e \<Rightarrow>
                    s1\<lparr>logger := logger s1 @ [Error (''Error connecting : '' @ e)]\<rparr>
                | StartRaises th e \<Rightarrow>
                    s1\<lparr>thread := Some th,
                       logger := logger s1 @ [Error (''Error connecting : '' @ e)]\<rparr>
                | Started th \<Rightarrow> s1\<lparr>thread := Some th\<rparr>)
      in s2\<lparr>logger := logger s2 @
                 [Info ''Waiting for websocket initialization to complete'']\<rparr>)"
  from assms(1) obtain s4 where w: "waitInitialized_loop (att_polls a) s3 = Some (Return True, s4)"
    and s': "s' = s4\<lparr>logger := logger s4 @ [Info ''Initialization completed'']\<rparr>"
    unfolding initializeClient_def s3_def Let_def
    by (auto split: option.splits res.splits prod.splits)
  from waitInitialized_loop_no_stop [OF assms(2) w] have "s4 = s3" "\<not> stopped s3" by simp_all
  with s' show ?thesis by simp
qed

lemma waitInitialized_loop_Raise:
  "waitInitialized_loop ps s = Some (Raise e, s') \<Longrightarrow> e = AttributeError"
proof (induction ps arbitrary: s)
  case Nil
  then show ?case by (auto split: if_splits option.splits)
next
  case (Cons p ps)
  show ?case
  proof (cases "stopped s")
    case True
    with Cons.prems show ?thesis by auto
  next
    case False
    show ?thesis
    proof (cases "thread s")
      case None
      with False Cons.prems show ?thesis by auto
    next
      case (Some th)
      show ?thesis
      proof (cases "poll_initialized p")
        case True
        with False Some Cons.prems show ?thesis by auto
      next
        case f: False
        with False Some Cons.prems
        have "waitInitialized_loop ps (if poll_stopCalled p then snd (stop s) else s) = Some (Raise e, s')"
          by (simp add: Let_def)
        then show ?thesis by (rule Cons.IH)
      qed
    qed
  qed
qed

text \<open>
  C5: a failure of the transport construction during \<^verbatim>\<open>__initializeClient\<close>. The exception
  is caught and logged. When only the thread's \<^verbatim>\<open>start()\<close> failed, the wait loop polls the
  thread until \<^verbatim>\<open>stop\<close> is called and the routine returns false
  (\<open>initializeClient_start_raises\<close>). When the construction itself failed on a feed that
  never had a thread, \<^verbatim>\<open>self.__thread\<close> is still \<^verbatim>\<open>None\<close> and the first turn of the wait loop
  raises \<^verbatim>\<open>AttributeError\<close>, which leaves \<^verbatim>\<open>__initializeClient\<close> and \<^verbatim>\<open>start\<close>: no failure is
  reported by a return value and the feed is not marked stopped. The theorem evaluates
  the code on a new feed, for every message of the construction failure and every
  behaviour of the polls.
\<close>

theorem initializeClient_construction_failure:
  "initializeClient \<lparr> att_build = BuildRaises e, att_polls = ps \<rparr> (LiveTradeFeed instruments tmo) =
     Some (Raise AttributeError,
           (LiveTradeFeed instruments tmo)
             \<lparr> logger := [Info ''Initializing websocket client'',
                          Error (''Error connecting : '' @ e),
                          Info ''Waiting for websocket initialization to complete''] \<rparr>)
   \<and> start \<lparr> att_build = BuildRaises e, att_polls = ps \<rparr> (LiveTradeFeed instruments tmo) =
     Some (Raise AttributeError,
           (LiveTradeFeed instruments tmo)
             \<lparr> logger := [Info ''Initializing websocket client'',
                          Error (''Error connecting : '' @ e),
                          Info ''Waiting for websocket initialization to complete''] \<rparr>)
   \<and> \<not> eof ((LiveTradeFeed instruments tmo)
             \<lparr> logger := [Info ''Initializing websocket client'',
                          Error (''Error connecting : '' @ e),
                          Info ''Waiting for websocket initialization to complete''] \<rparr>)"
  by (simp add: initializeClient_def start_def LiveTradeFeed_def waitInitialized_loop_no_thread eof_def)

text \<open>
  C7: \<^verbatim>\<open>stop\<close> never raises, in any state of the feed: it returns, the stop flag is set, a
  second call changes nothing but the log, the transport thread is asked to stop only if
  it is alive (and is otherwise left as it was), a failure of the thread's \<^verbatim>\<open>stop()\<close> is
  logged, and no other field of the feed changes.
\<close>

theorem stop_never_raises:
  "fst (stop s) = Return ()
   \<and> stopped (snd (stop s))
   \<and> snd (stop (snd (stop s))) =
       (snd (stop s))\<lparr>logger := logger (snd (stop (snd (stop s))))\<rparr>
   \<and> thread (snd (stop s)) =
       (case thread s of
          None \<Rightarrow> None
        | Some th \<Rightarrow> if thr_alive th \<and> thr_stopRaises th = None
                     then Some (th\<lparr>thr_stopRequested := True\<rparr>) else Some th)
   \<and> (\<forall>th e. thread s = Some th \<and> thr_alive th \<and> thr_stopRaises th = Some e \<longrightarrow>
         logger (snd (stop s)) =
           logger s @ [Info ''Stopping websocket client.'',
                       Error (''Error shutting down client: '' @ e)])
   \<and> snd (stop s) =
       s\<lparr>stopped := True, thread := thread (snd (stop s)), logger := logger (snd (stop s))\<rparr>"
proof -
  have 1: "fst (stop s) = Return ()" by (rule stop_Return)
  have 2: "stopped (snd (stop s))" by (rule stopped_stop)
  have 3: "snd (stop (snd (stop s))) =
       (snd (stop s))\<lparr>logger := logger (snd (stop (snd (stop s))))\<rparr>"
    by (cases "thread s") (simp_all add: stop_def Let_def split: option.splits)
  have 4: "thread (snd (stop s)) =
       (case thread s of
          None \<Rightarrow> None
        | Some th \<Rightarrow> if thr_alive th \<and> thr_stopRaises th = None
                     then Some (th\<lparr>thr_stopRequested := True\<rparr>) else Some th)"
    by (cases "thread s") (simp_all add: stop_def Let_def split: option.splits)
  have 5: "\<forall>th e. thread s = Some th \<and> thr_alive th \<and> thr_stopRaises th = Some e \<longrightarrow>
         logger (snd (stop s)) =
           logger s @ [Info ''Stopping websocket client.'',
                       Error (''Error shutting down client: '' @ e)]"
    by (simp add: stop_def Let_def)
  have 6: "snd (stop s) =
       s\<lparr>stopped := True, thread := thread (snd (stop s)), logger := logger (snd (stop s))\<rparr>"
    by (cases "thread s") (simp_all add: stop_def Let_def split: option.splits)
  from 1 2 3 4 5 6 show ?thesis by blast
qed

theorem stop_never_raises_witness:
  "thread (example_feed\<lparr>thread := Some example_raising_thread\<rparr>) = Some example_raising_thread
   \<and> thr_alive example_raising_thread
   \<and> thr_stopRaises example_raising_thread = Some ''socket closed''
   \<and> fst (stop (example_feed\<lparr>thread := Some example_raising_thread\<rparr>)) = Return ()
   \<and> logger (snd (stop (example_feed\<lparr>thread := Some example_raising_thread\<rparr>))) =
       [Info ''Stopping websocket client.'',
        Error ''Error shutting down client: socket closed'']"
proof -
  have l: "logger (example_feed\<lparr>thread := Some example_raising_thread\<rparr>) = []"
    by (simp add: example_feed_def LiveTradeFeed_def)
  have h: "thread (example_feed\<lparr>thread := Some example_raising_thread\<rparr>) = Some example_raising_thread
     \<and> thr_alive example_raising_thread
     \<and> thr_stopRaises example_raising_thread = Some ''socket closed''"
    by (simp add: example_raising_thread_def)
  from stop_never_raises [of "example_feed\<lparr>thread := Some example_raising_thread\<rparr>"]
  have "fst (stop (example_feed\<lparr>thread := Some example_raising_thread\<rparr>)) = Return ()"
    and "\<forall>th e. thread (example_feed\<lparr>thread := Some example_raising_thread\<rparr>) = Some th
           \<and> thr_alive th \<and> thr_stopRaises th = Some e \<longrightarrow>
         logger (snd (stop (example_feed\<lparr>thread := Some example_raising_thread\<rparr>))) =
           logger (example_feed\<lparr>thread := Some example_raising_thread\<rparr>) @
             [Info ''Stopping websocket client.'', Error (''Error shutting down client: '' @ e)]"
    by blast+
  with h l show ?thesis by simp
qed

text \<open>
  C6, amended: \<^verbatim>\<open>eof()\<close> is false after a successful \<^verbatim>\<open>start()\<close> during which \<^verbatim>\<open>stop()\<close> was
  not called; it is true after \<^verbatim>\<open>stop()\<close>, and after a \<^verbatim>\<open>start()\<close> that fails with
  "Initialization failed", which happens when the initialization returns false and
  marks the feed stopped before the failure is raised; \<^verbatim>\<open>start()\<close> on a feed whose
  transport thread is not \<^verbatim>\<open>None\<close> raises "Already running" and leaves the feed, its stop
  flag included, as it was.
\<close>

theorem eof_after_start_and_stop:
  "(start a s = Some (Return (), s') \<and> (\<forall>p\<in>set (att_polls a). \<not> poll_stopCalled p)
      \<longrightarrow> \<not> eof s')
   \<and> eof (snd (stop s))
   \<and> (start a s = Some (Raise (Exception ''Initialization failed''), s') \<longrightarrow> eof s')
   \<and> (thread s = None \<and> initializeClient a s = Some (Return False, s1) \<longrightarrow>
        start a s = Some (Raise (Exception ''Initialization failed''), s1\<lparr>stopped := True\<rparr>))
   \<and> (thread s \<noteq> None \<longrightarrow> start a s = Some (Raise (Exception ''Already running''), s))"
proof -
  have 1: "start a s = Some (Return (), s') \<and> (\<forall>p\<in>set (att_polls a). \<not> poll_stopCalled p)
      \<longrightarrow> \<not> eof s'"
  proof
    assume h: "start a s = Some (Return (), s') \<and> (\<forall>p\<in>set (att_polls a). \<not> poll_stopCalled p)"
    then have "initializeClient a s = Some (Return True, s')"
      by (auto simp: start_def split: if_splits option.splits res.splits prod.splits)
    with h show "\<not> eof s'" by (simp add: eof_def initializeClient_Return_True)
  qed
  have 2: "eof (snd (stop s))" by (simp add: eof_def stopped_stop)
  have 3: "start a s = Some (Raise (Exception ''Initialization failed''), s') \<longrightarrow> eof s'"
  proof
    assume h: "start a s = Some (Raise (Exception ''Initialization failed''), s')"
    show "eof s'"
    proof (cases "initializeClient a s")
      case None
      with h show ?thesis by (simp add: start_def split: if_splits)
    next
      case (Some x)
      obtain r s2 where x: "x = (r, s2)" by (cases x)
      show ?thesis
      proof (cases r)
        case (Return b)
        with h Some x show ?thesis by (auto simp: start_def eof_def split: if_splits)
      next
        case (Raise e)
        with h Some x have e: "initializeClient a s = Some (Raise (Exception ''Initialization failed''), s')"
          by (auto simp: start_def split: if_splits)
        then show ?thesis
          unfolding initializeClient_def Let_def
          by (auto split: option.splits res.splits prod.splits build.splits
              dest!: waitInitialized_loop_Raise)
      qed
    qed
  qed
  have 4: "thread s = None \<and> initializeClient a s = Some (Return False, s1) \<longrightarrow>
        start a s = Some (Raise (Exception ''Initialization failed''), s1\<lparr>stopped := True\<rparr>)"
    by (simp add: start_def)
  have 5: "thread s \<noteq> None \<longrightarrow> start a s = Some (Raise (Exception ''Already running''), s)"
    by (simp add: start_def)
  from 1 2 3 4 5 show ?thesis by blast
qed

theorem eof_after_start_and_stop_witness:
  "start (example_attempt []) example_feed = Some (Return (), example_running [])
   \<and> map poll_stopCalled (att_polls (example_attempt [])) = [False, False]
   \<and> \<not> eof (example_running [])
   \<and> start example_failing_attempt example_feed =
       Some (Raise (Exception ''Initialization failed''), example_failed)
   \<and> eof example_failed
   \<and> thread (example_running []) = Some (example_thread [])
   \<and> start (example_attempt []) (example_running []) =
       Some (Raise (Exception ''Already running''), example_running [])"
proof -
  have a: "start (example_attempt []) example_feed = Some (Return (), example_running [])"
    by (simp add: start_def initializeClient_def example_attempt_def example_feed_def
      example_running_def example_thread_def LiveTradeFeed_def)
  have b: "map poll_stopCalled (att_polls (example_attempt [])) = [False, False]"
    by (simp add: example_attempt_def)
  then have b': "\<forall>p\<in>set (att_polls (example_attempt [])). \<not> poll_stopCalled p"
    by (simp add: example_attempt_def)
  have c: "start example_failing_attempt example_feed =
       Some (Raise (Exception ''Initialization failed''), example_failed)"
    by (simp add: start_def initializeClient_def example_failing_attempt_def example_feed_def
      example_failed_def example_thread_def LiveTradeFeed_def stop_def)
  have d: "thread (example_running []) = Some (example_thread [])"
    by (simp add: example_running_def)
  note th1 = eof_after_start_and_stop [of "example_attempt []" example_feed "example_running []"]
  note th2 = eof_after_start_and_stop [of example_failing_attempt example_feed example_failed]
  note th3 = eof_after_start_and_stop [of "example_attempt []" "example_running []"]
  from th1 a b' have e1: "\<not> eof (example_running [])" by blast
  from th2 c have e2: "eof example_failed" by blast
  from th3 d have e3: "start (example_attempt []) (example_running []) =
       Some (Raise (Exception ''Already running''), example_running [])" by simp
  from a b e1 c e2 d e3 show ?thesis by blast
qed

text \<open>
  The statement of C6 as written, that \<^verbatim>\<open>eof()\<close> is true after every failed \<^verbatim>\<open>start()\<close>, fails
  on a running feed: a second \<^verbatim>\<open>start()\<close> raises "Already running" and \<^verbatim>\<open>eof()\<close> is still
  false.
\<close>

theorem start_already_running_counterexample:
  "start (example_attempt []) example_feed = Some (Return (), example_running [])
   \<and> start (example_attempt []) (example_running []) =
       Some (Raise (Exception ''Already running''), example_running [])
   \<and> eof (example_running []) = False"
  by (simp add: start_def initializeClient_def example_attempt_def example_feed_def
      example_running_def example_thread_def LiveTradeFeed_def eof_def)

section \<open>The dispatch loop\<close>

lemma onDisconnected_no_reconnection:
  "\<not> enableReconnection s \<Longrightarrow>
   \<exists>s2. onDisconnected as s = Some (Return (), s2) \<and> thread s2 = thread s"
  by (simp add: onDisconnected_def)

text \<open>
  C9: \<^verbatim>\<open>__dispatchImpl\<close> on a feed whose thread has an empty queue returns false and leaves
  every field of the feed as it was: the trade buffer, the thread, the stop flag, the
  observers' events and the log. (How long the call blocks is the timeout of the
  queue's \<^verbatim>\<open>get\<close>, \<^verbatim>\<open>QUEUE_TIMEOUT\<close>.)
\<close>

theorem dispatch_empty_queue:
  assumes "thread s = Some th" and "thr_queue th = []"
  shows "dispatchImpl as eventFilter s = Some (Return False, s)"
  using assms by (simp add: dispatchImpl_def)

theorem dispatch_empty_queue_witness:
  "thread (example_running []) = Some (example_thread [])
   \<and> thr_queue (example_thread []) = []
   \<and> dispatchImpl [] None (example_running []) = Some (Return False, example_running [])"
proof -
  have 1: "thread (example_running []) = Some (example_thread [])"
    by (simp add: example_running_def)
  have 2: "thr_queue (example_thread []) = []" by (simp add: example_thread_def)
  from dispatch_empty_queue [OF 1 2, of "[]" None] 1 2 show ?thesis by simp
qed

text \<open>
  C4: one call of \<^verbatim>\<open>__dispatchImpl\<close> on a feed with a transport thread takes at most one
  item from the queue. On an empty queue it returns false. An item whose tag the filter
  excludes is removed from the queue, nothing else changes, and the call returns false.
  A \<open>TRADE\<close> item is put into the trade buffer, an \<open>ORDER_BOOK_UPDATE\<close> item is emitted
  to the observers, a \<open>DISCONNECTED\<close> item is handed to \<^verbatim>\<open>__onDisconnected\<close> (which returns
  at once when reconnection is disabled), and the call returns true in these three
  cases; any other tag is logged and the call returns false. Whenever the call returns
  a value, that value is true exactly if an item was taken, was not excluded and had one
  of the three tags. Unless a reconnection replaces the thread, the thread afterwards is
  the same thread with at most the head of its queue removed.
\<close>

theorem dispatch_takes_one_event:
  assumes th: "thread s = Some th"
  shows
   "(thr_queue th = [] \<longrightarrow> dispatchImpl as f s = Some (Return False, s))
    \<and> (\<forall>ty d q. thr_queue th = (ty, d) # q \<longrightarrow>
         (excluded f ty \<longrightarrow>
            dispatchImpl as f s = Some (Return False, s\<lparr>thread := Some (th\<lparr>thr_queue := q\<rparr>)\<rparr>))
       \<and> (\<not> excluded f ty \<and> ty = TRADE \<longrightarrow>
            (\<forall>t. d = TradeData t \<longrightarrow>
               dispatchImpl as f s =
                 Some (Return True, onTrade t (s\<lparr>thread := Some (th\<lparr>thr_queue := q\<rparr>)\<rparr>))))
       \<and> (\<not> excluded f ty \<and> ty = ORDER_BOOK_UPDATE \<longrightarrow>
            dispatchImpl as f s =
              Some (Return True,
                    s\<lparr>thread := Some (th\<lparr>thr_queue := q\<rparr>),
                      orderBookUpdateEvent := orderBookUpdateEvent s @ [d]\<rparr>))
       \<and> (\<not> excluded f ty \<and> ty = DISCONNECTED \<longrightarrow>
            dispatchImpl as f s =
              (case onDisconnected as (s\<lparr>thread := Some (th\<lparr>thr_queue := q\<rparr>)\<rparr>) of
                 None \<Rightarrow> None
               | Some (Raise e, s2) \<Rightarrow> Some (Raise e, s2)
               | Some (Return u, s2) \<Rightarrow> Some (Return True, s2)))
       \<and> (\<not> excluded f ty \<and> ty = DISCONNECTED \<and> \<not> enableReconnection s \<longrightarrow>
            (\<exists>s2. dispatchImpl as f s = Some (Return True, s2)
                  \<and> thread s2 = Some (th\<lparr>thr_queue := q\<rparr>)))
       \<and> (\<not> excluded f ty \<and> (\<exists>n. ty = OtherEvent n) \<longrightarrow>
            dispatchImpl as f s =
              Some (Return False,
                    s\<lparr>thread := Some (th\<lparr>thr_queue := q\<rparr>),
                      logger := logger s @ [ErrorInvalidEvent ty d]\<rparr>)))
    \<and> (\<forall>r s'. dispatchImpl as f s = Some (Return r, s') \<longrightarrow>
         (r \<longleftrightarrow> (\<exists>ty d q. thr_queue th = (ty, d) # q \<and> \<not> excluded f ty
                       \<and> ty \<in> {TRADE, ORDER_BOOK_UPDATE, DISCONNECTED})))
    \<and> (\<forall>r s'. dispatchImpl as f s = Some (r, s')
           \<and> \<not> (enableReconnection s \<and> \<not> excluded f DISCONNECTED
                  \<and> (\<exists>d q. thr_queue th = (DISCONNECTED, d) # q)) \<longrightarrow>
         thread s' = Some (th\<lparr>thr_queue := tl (thr_queue th)\<rparr>))"
proof -
  have 1: "thr_queue th = [] \<longrightarrow> dispatchImpl as f s = Some (Return False, s)"
    using th by (simp add: dispatchImpl_def Let_def)
  have 2: "\<forall>ty d q. thr_queue th = (ty, d) # q \<longrightarrow>
         (excluded f ty \<longrightarrow>
            dispatchImpl as f s = Some (Return False, s\<lparr>thread := Some (th\<lparr>thr_queue := q\<rparr>)\<rparr>))
       \<and> (\<not> excluded f ty \<and> ty = TRADE \<longrightarrow>
            (\<forall>t. d = TradeData t \<longrightarrow>
               dispatchImpl as f s =
                 Some (Return True, onTrade t (s\<lparr>thread := Some (th\<lparr>thr_queue := q\<rparr>)\<rparr>))))
       \<and> (\<not> excluded f ty \<and> ty = ORDER_BOOK_UPDATE \<longrightarrow>
            dispatchImpl as f s =
              Some (Return True,
                    s\<lparr>thread := Some (th\<lparr>thr_queue := q\<rparr>),
                      orderBookUpdateEvent := orderBookUpdateEvent s @ [d]\<rparr>))
       \<and> (\<not> excluded f ty \<and> ty = DISCONNECTED \<longrightarrow>
            dispatchImpl as f s =
              (case onDisconnected as (s\<lparr>thread := Some (th\<lparr>thr_queue := q\<rparr>)\<rparr>) of
                 None \<Rightarrow> None
               | Some (Raise e, s2) \<Rightarrow> Some (Raise e, s2)
               | Some (Return u, s2) \<Rightarrow> Some (Return True, s2)))
       \<and> (\<not> excluded f ty \<and> ty = DISCONNECTED \<and> \<not> enableReconnection s \<longrightarrow>
            (\<exists>s2. dispatchImpl as f s = Some (Return True, s2)
                  \<and> thread s2 = Some (th\<lparr>thr_queue := q\<rparr>)))
       \<and> (\<not> excluded f ty \<and> (\<exists>n. ty = OtherEvent n) \<longrightarrow>
            dispatchImpl as f s =
              Some (Return False,
                    s\<lparr>thread := Some (th\<lparr>thr_queue := q\<rparr>),
                      logger := logger s @ [ErrorInvalidEvent ty d]\<rparr>))"
  proof (intro allI impI)
    fix ty d q assume q: "thr_queue th = (ty, d) # q"
    let ?s1 = "s\<lparr>thread := Some (th\<lparr>thr_queue := q\<rparr>)\<rparr>"
    have a: "excluded f ty \<longrightarrow> dispatchImpl as f s = Some (Return False, ?s1)"
      using th q by (auto simp: dispatchImpl_def Let_def)
    have b: "\<not> excluded f ty \<and> ty = TRADE \<longrightarrow>
            (\<forall>t. d = TradeData t \<longrightarrow> dispatchImpl as f s = Some (Return True, onTrade t ?s1))"
      using th q by (auto simp: dispatchImpl_def Let_def)
    have c: "\<not> excluded f ty \<and> ty = ORDER_BOOK_UPDATE \<longrightarrow>
            dispatchImpl as f s =
              Some (Return True,
                    s\<lparr>thread := Some (th\<lparr>thr_queue := q\<rparr>),
                      orderBookUpdateEvent := orderBookUpdateEvent s @ [d]\<rparr>)"
      using th q by (auto simp: dispatchImpl_def Let_def)
    have d: "\<not> excluded f ty \<and> ty = DISCONNECTED \<longrightarrow>
            dispatchImpl as f s =
              (case onDisconnected as ?s1 of
                 None \<Rightarrow> None
               | Some (Raise e, s2) \<Rightarrow> Some (Raise e, s2)
               | Some (Return u, s2) \<Rightarrow> Some (Return True, s2))"
      using th q by (auto simp: dispatchImpl_def Let_def)
    have e: "\<not> excluded f ty \<and> ty = DISCONNECTED \<and> \<not> enableReconnection s \<longrightarrow>
            (\<exists>s2. dispatchImpl as f s = Some (Return True, s2)
                  \<and> thread s2 = Some (th\<lparr>thr_queue := q\<rparr>))"
    proof
      assume h: "\<not> excluded f ty \<and> ty = DISCONNECTED \<and> \<not> enableReconnection s"
      then have "\<not> enableReconnection ?s1" by simp
      from onDisconnected_no_reconnection [OF this, of as] obtain s2 where
        "onDisconnected as ?s1 = Some (Return (), s2)" "thread s2 = thread ?s1" by blast
      with h d show "\<exists>s2. dispatchImpl as f s = Some (Return True, s2)
                  \<and> thread s2 = Some (th\<lparr>thr_queue := q\<rparr>)" by auto
    qed
    have g: "\<not> excluded f ty \<and> (\<exists>n. ty = OtherEvent n) \<longrightarrow>
            dispatchImpl as f s =
              Some (Return False,
                    s\<lparr>thread := Some (th\<lparr>thr_queue := q\<rparr>),
                      logger := logger s @ [ErrorInvalidEvent ty d]\<rparr>)"
      using th q by (auto simp: dispatchImpl_def Let_def)
    from a b c d e g show "(excluded f ty \<longrightarrow>
            dispatchImpl as f s = Some (Return False, s\<lparr>thread := Some (th\<lparr>thr_queue := q\<rparr>)\<rparr>))
       \<and> (\<not> excluded f ty \<and> ty = TRADE \<longrightarrow>
            (\<forall>t. d = TradeData t \<longrightarrow>
               dispatchImpl as f s =
                 Some (Return True, onTrade t (s\<lparr>thread := Some (th\<lparr>thr_queue := q\<rparr>)\<rparr>))))
       \<and> (\<not> excluded f ty \<and> ty = ORDER_BOOK_UPDATE \<longrightarrow>
            dispatchImpl as f s =
              Some (Return True,
                    s\<lparr>thread := Some (th\<lparr>thr_queue := q\<rparr>),
                      orderBookUpdateEvent := orderBookUpdateEvent s @ [d]\<rparr>))
       \<and> (\<not> excluded f ty \<and> ty = DISCONNECTED \<longrightarrow>
            dispatchImpl as f s =
              (case onDisconnected as (s\<lparr>thread := Some (th\<lparr>thr_queue := q\<rparr>)\<rparr>) of
                 None \<Rightarrow> None
               | Some (Raise e, s2) \<Rightarrow> Some (Raise e, s2)
               | Some (Return u, s2) \<Rightarrow> Some (Return True, s2)))
       \<and> (\<not> excluded f ty \<and> ty = DISCONNECTED \<and> \<not> enableReconnection s \<longrightarrow>
            (\<exists>s2. dispatchImpl as f s = Some (Return True, s2)
                  \<and> thread s2 = Some (th\<lparr>thr_queue := q\<rparr>)))
       \<and> (\<not> excluded f ty \<and> (\<exists>n. ty = OtherEvent n) \<longrightarrow>
            dispatchImpl as f s =
              Some (Return False,
                    s\<lparr>thread := Some (th\<lparr>thr_queue := q\<rparr>),
                      logger := logger s @ [ErrorInvalidEvent ty d]\<rparr>))"
      by blast
  qed
  have 3: "\<forall>r s'. dispatchImpl as f s = Some (Return r, s') \<longrightarrow>
         (r \<longleftrightarrow> (\<exists>ty d q. thr_queue th = (ty, d) # q \<and> \<not> excluded f ty
                       \<and> ty \<in> {TRADE, ORDER_BOOK_UPDATE, DISCONNECTED}))"
  proof (intro allI impI)
    fix r s' assume h: "dispatchImpl as f s = Some (Return r, s')"
    show "r \<longleftrightarrow> (\<exists>ty d q. thr_queue th = (ty, d) # q \<and> \<not> excluded f ty
                       \<and> ty \<in> {TRADE, ORDER_BOOK_UPDATE, DISCONNECTED})"
    proof (cases "thr_queue th")
      case Nil
      with h th show ?thesis by (simp add: dispatchImpl_def Let_def)
    next
      case (Cons x q)
      obtain ty d where x: "x = (ty, d)" by (cases x)
      show ?thesis
      proof (cases "excluded f ty")
        case True
        with h th Cons x show ?thesis by (simp add: dispatchImpl_def Let_def)
      next
        case False
        show ?thesis
        proof (cases ty)
          case DISCONNECTED
          with h th Cons x False show ?thesis
            by (auto simp: dispatchImpl_def Let_def split: option.splits res.splits prod.splits)
        next
          case TRADE
          with h th Cons x False show ?thesis
            by (cases d) (auto simp: dispatchImpl_def Let_def)
        next
          case ORDER_BOOK_UPDATE
          with h th Cons x False show ?thesis by (auto simp: dispatchImpl_def Let_def)
        next
          case (OtherEvent n)
          with h th Cons x False show ?thesis by (auto simp: dispatchImpl_def Let_def)
        qed
      qed
    qed
  qed
  have 4: "\<forall>r s'. dispatchImpl as f s = Some (r, s')
           \<and> \<not> (enableReconnection s \<and> \<not> excluded f DISCONNECTED
                  \<and> (\<exists>d q. thr_queue th = (DISCONNECTED, d) # q)) \<longrightarrow>
         thread s' = Some (th\<lparr>thr_queue := tl (thr_queue th)\<rparr>)"
  proof (intro allI impI)
    fix r s' assume h0: "dispatchImpl as f s = Some (r, s')
           \<and> \<not> (enableReconnection s \<and> \<not> excluded f DISCONNECTED
                  \<and> (\<exists>d q. thr_queue th = (DISCONNECTED, d) # q))"
    then have h: "dispatchImpl as f s = Some (r, s')" by simp
    show "thread s' = Some (th\<lparr>thr_queue := tl (thr_queue th)\<rparr>)"
    proof (cases "thr_queue th")
      case Nil
      with h th show ?thesis by (auto simp: dispatchImpl_def Let_def)
    next
      case (Cons x q)
      obtain ty d where x: "x = (ty, d)" by (cases x)
      show ?thesis
      proof (cases "excluded f ty")
        case True
        with h th Cons x show ?thesis by (auto simp: dispatchImpl_def Let_def)
      next
        case False
        show ?thesis
        proof (cases ty)
          case DISCONNECTED
          with h0 Cons x False have nr: "\<not> enableReconnection s" by auto
          with 2 Cons x False DISCONNECTED obtain s2 where
            "dispatchImpl as f s = Some (Return True, s2)" "thread s2 = Some (th\<lparr>thr_queue := q\<rparr>)"
            by blast
          with h Cons show ?thesis by simp
        next
          case TRADE
          with h th Cons x False show ?thesis
            by (cases d) (auto simp: dispatchImpl_def onTrade_def Let_def)
        next
          case ORDER_BOOK_UPDATE
          with h th Cons x False show ?thesis by (auto simp: dispatchImpl_def Let_def)
        next
          case (OtherEvent n)
          with h th Cons x False show ?thesis by (auto simp: dispatchImpl_def Let_def)
        qed
      qed
    qed
  qed
  from 1 2 3 4 show ?thesis by blast
qed

theorem dispatch_takes_one_event_witness:
  "thread (example_running [(OtherEvent 7, NoData)]) =
     Some (example_thread [(OtherEvent 7, NoData)])
   \<and> dispatchImpl [] None (example_running [(OtherEvent 7, NoData)]) =
       Some (Return False,
             (example_running [])
               \<lparr>logger := logger (example_running []) @
                            [ErrorInvalidEvent (OtherEvent 7) NoData]\<rparr>)
   \<and> thread (example_running [(ORDER_BOOK_UPDATE, OrderBookUpdateData ''bid'')]) =
       Some (example_thread [(ORDER_BOOK_UPDATE, OrderBookUpdateData ''bid'')])
   \<and> dispatchImpl [] (Some [TRADE])
         (example_running [(ORDER_BOOK_UPDATE, OrderBookUpdateData ''bid'')]) =
       Some (Return False, example_running [])"
proof -
  have t1: "thread (example_running [(OtherEvent 7, NoData)]) =
     Some (example_thread [(OtherEvent 7, NoData)])"
    by (simp add: example_running_def)
  have q1: "thr_queue (example_thread [(OtherEvent 7, NoData)]) = (OtherEvent 7, NoData) # []"
    by (simp add: example_thread_def)
  have x1: "\<not> excluded None (OtherEvent 7)" by (simp add: excluded_def)
  have e1: "(example_running [(OtherEvent 7, NoData)])
              \<lparr>thread := Some ((example_thread [(OtherEvent 7, NoData)])\<lparr>thr_queue := []\<rparr>),
               logger := logger (example_running [(OtherEvent 7, NoData)]) @
                            [ErrorInvalidEvent (OtherEvent 7) NoData]\<rparr> =
            (example_running [])
               \<lparr>logger := logger (example_running []) @
                            [ErrorInvalidEvent (OtherEvent 7) NoData]\<rparr>"
    by (simp add: example_running_def example_thread_def)
  have x1': "\<not> excluded None (OtherEvent 7) \<and> (\<exists>n. OtherEvent 7 = OtherEvent n)"
    using x1 by simp
  note c1 = dispatch_takes_one_event
    [OF t1, of "[]" None, THEN conjunct2, THEN conjunct1, rule_format, OF q1]
  note r1 = c1 [THEN conjunct2, THEN conjunct2, THEN conjunct2, THEN conjunct2,
    THEN conjunct2, THEN mp, OF x1']
  have t2: "thread (example_running [(ORDER_BOOK_UPDATE, OrderBookUpdateData ''bid'')]) =
       Some (example_thread [(ORDER_BOOK_UPDATE, OrderBookUpdateData ''bid'')])"
    by (simp add: example_running_def)
  have q2: "thr_queue (example_thread [(ORDER_BOOK_UPDATE, OrderBookUpdateData ''bid'')]) =
       (ORDER_BOOK_UPDATE, OrderBookUpdateData ''bid'') # []"
    by (simp add: example_thread_def)
  have x2: "excluded (Some [TRADE]) ORDER_BOOK_UPDATE" by (simp add: excluded_def)
  have e2: "(example_running [(ORDER_BOOK_UPDATE, OrderBookUpdateData ''bid'')])
              \<lparr>thread := Some ((example_thread [(ORDER_BOOK_UPDATE, OrderBookUpdateData ''bid'')])
                                  \<lparr>thr_queue := []\<rparr>)\<rparr> =
            example_running []"
    by (simp add: example_running_def example_thread_def)
  note c2 = dispatch_takes_one_event
    [OF t2, of "[]" "Some [TRADE]", THEN conjunct2, THEN conjunct1, rule_format, OF q2]
  note r2 = c2 [THEN conjunct1, THEN mp, OF x2]
  from t1 r1 [unfolded e1] t2 r2 [unfolded e2] show ?thesis by (intro conjI)
qed

text \<open>
  C8, amended: when a \<open>DISCONNECTED\<close> item is dispatched with reconnection disabled and
  the feed not stopped, the call returns true without raising, the item is taken from
  the queue, "Stopping" is logged and the feed is stopped (\<^verbatim>\<open>eof()\<close> is true). Nothing in
  \<^verbatim>\<open>__dispatchImpl\<close> looks at the stop flag: a \<open>TRADE\<close> item taken from the queue by a later
  call on a stopped feed is put into the trade buffer as on a running one.
\<close>

theorem disconnected_without_reconnection:
  assumes "thread s = Some th" and "thr_queue th = (DISCONNECTED, d) # q"
    and "\<not> enableReconnection s" and "\<not> stopped s" and "\<not> excluded eventFilter DISCONNECTED"
  shows "dispatchImpl as eventFilter s =
           Some (Return True,
                 s\<lparr>thread := Some (th\<lparr>thr_queue := q\<rparr>),
                   logger := logger s @ [Info ''Stopping''], stopped := True\<rparr>)
         \<and> eof (s\<lparr>thread := Some (th\<lparr>thr_queue := q\<rparr>),
                   logger := logger s @ [Info ''Stopping''], stopped := True\<rparr>)
         \<and> (\<forall>s2 th2 t q2.
              stopped s2 \<and> thread s2 = Some th2 \<and> thr_queue th2 = (TRADE, TradeData t) # q2
              \<and> \<not> excluded eventFilter TRADE \<longrightarrow>
              dispatchImpl as eventFilter s2 =
                Some (Return True, onTrade t (s2\<lparr>thread := Some (th2\<lparr>thr_queue := q2\<rparr>)\<rparr>)))"
proof -
  have 1: "dispatchImpl as eventFilter s =
           Some (Return True,
                 s\<lparr>thread := Some (th\<lparr>thr_queue := q\<rparr>),
                   logger := logger s @ [Info ''Stopping''], stopped := True\<rparr>)"
    using assms by (simp add: dispatchImpl_def onDisconnected_def)
  have 2: "eof (s\<lparr>thread := Some (th\<lparr>thr_queue := q\<rparr>),
                   logger := logger s @ [Info ''Stopping''], stopped := True\<rparr>)"
    by (simp add: eof_def)
  have 3: "\<forall>s2 th2 t q2.
              stopped s2 \<and> thread s2 = Some th2 \<and> thr_queue th2 = (TRADE, TradeData t) # q2
              \<and> \<not> excluded eventFilter TRADE \<longrightarrow>
              dispatchImpl as eventFilter s2 =
                Some (Return True, onTrade t (s2\<lparr>thread := Some (th2\<lparr>thr_queue := q2\<rparr>)\<rparr>))"
    by (simp add: dispatchImpl_def)
  from 1 2 3 show ?thesis by blast
qed

theorem disconnected_without_reconnection_witness:
  "thread example_disconnecting =
     Some (example_thread [(DISCONNECTED, NoData), (TRADE, TradeData example_trade_1)])
   \<and> \<not> enableReconnection example_disconnecting \<and> \<not> stopped example_disconnecting
   \<and> \<not> excluded None DISCONNECTED
   \<and> dispatchImpl [] None example_disconnecting = Some (Return True, example_stopped)
   \<and> eof example_stopped"
proof -
  have t: "thread example_disconnecting =
     Some (example_thread [(DISCONNECTED, NoData), (TRADE, TradeData example_trade_1)])"
    by (simp add: example_disconnecting_def example_running_def)
  have q: "thr_queue (example_thread [(DISCONNECTED, NoData), (TRADE, TradeData example_trade_1)]) =
     (DISCONNECTED, NoData) # [(TRADE, TradeData example_trade_1)]"
    by (simp add: example_thread_def)
  have r: "\<not> enableReconnection example_disconnecting" "\<not> stopped example_disconnecting"
    by (simp_all add: example_disconnecting_def example_running_def example_feed_def LiveTradeFeed_def)
  have x: "\<not> excluded None DISCONNECTED" by (simp add: excluded_def)
  have e: "example_disconnecting
            \<lparr>thread := Some ((example_thread [(DISCONNECTED, NoData), (TRADE, TradeData example_trade_1)])
                \<lparr>thr_queue := [(TRADE, TradeData example_trade_1)]\<rparr>),
             logger := logger example_disconnecting @ [Info ''Stopping''], stopped := True\<rparr> =
           example_stopped"
    by (simp add: example_disconnecting_def example_stopped_def example_running_def
        example_thread_def example_feed_def LiveTradeFeed_def)
  from disconnected_without_reconnection [OF t q r x, of "[]"] t r x show ?thesis
    unfolding e by blast
qed

text \<open>
  The statement of C8 as written, that no trade is processed after the disconnection,
  fails when a trade is queued behind the \<open>DISCONNECTED\<close> item: the first call stops the
  feed, the second call puts the trade into the buffer and returns true.
\<close>

theorem trade_after_disconnection_counterexample:
  "\<not> stopped example_disconnecting
   \<and> \<not> enableReconnection example_disconnecting
   \<and> dispatchImpl [] None example_disconnecting = Some (Return True, example_stopped)
   \<and> eof example_stopped
   \<and> tradeBars example_stopped = []
   \<and> dispatchImpl [] None example_stopped =
       Some (Return True,
             example_stopped
               \<lparr> tradeBars := [(100, [[(Some ''AAPL'', example_trade_1)]])],
                 thread := Some (example_thread []) \<rparr>)"
proof -
  have 1: "\<not> stopped example_disconnecting" "\<not> enableReconnection example_disconnecting"
    by (simp_all add: example_disconnecting_def example_running_def example_feed_def LiveTradeFeed_def)
  have 2: "dispatchImpl [] None example_disconnecting = Some (Return True, example_stopped)"
    by (simp add: dispatchImpl_def onDisconnected_def excluded_def example_disconnecting_def
        example_stopped_def example_running_def example_feed_def LiveTradeFeed_def
        example_thread_def)
  have 3: "eof example_stopped" "tradeBars example_stopped = []"
    by (simp_all add: eof_def example_stopped_def example_running_def example_feed_def LiveTradeFeed_def)
  have i: "trade_instrument example_trade_1 = Some ''AAPL''"
    "trade_getDateTime example_trade_1 = 100"
    by (simp_all add: trade_instrument_def example_trade_1_def)
  have 4: "dispatchImpl [] None example_stopped =
       Some (Return True,
             example_stopped
               \<lparr> tradeBars := [(100, [[(Some ''AAPL'', example_trade_1)]])],
                 thread := Some (example_thread []) \<rparr>)"
    by (simp add: dispatchImpl_def excluded_def onTrade_def i
        example_stopped_def example_running_def example_feed_def LiveTradeFeed_def
        example_thread_def)
  from 1 2 3 4 show ?thesis by blast
qed

section \<open>Adjusted values\<close>

text \<open>
  C10: adjusted-close values are never available. For every bar,
  \<^verbatim>\<open>setUseAdjustedValue(True)\<close> raises, \<^verbatim>\<open>setUseAdjustedValue(False)\<close> returns and leaves the
  bar as it was, \<^verbatim>\<open>getAdjClose\<close> returns \<^verbatim>\<open>None\<close>, \<^verbatim>\<open>getUseAdjValue\<close> returns false, and
  \<^verbatim>\<open>barsHaveAdjClose\<close> of every feed returns false.
\<close>

theorem adjusted_values_unavailable:
  "setUseAdjustedValue b True = (Raise (Exception ''Adjusted close is not available''), b)
   \<and> setUseAdjustedValue b False = (Return (), b)
   \<and> getAdjClose b = None
   \<and> getUseAdjValue b = False
   \<and> barsHaveAdjClose s = False"
  by (simp add: setUseAdjustedValue_def getAdjClose_def getUseAdjValue_def
      barsHaveAdjClose_def)

end
